theory Spec2Isabelle
  imports Complex_Main
begin

text \<open>
  The liveness check of src/App.tsx, with the service it imports as \<open>geminiService\<close>
  and the types of src/types.ts.
\<close>

section \<open>Data model (src/types.ts)\<close>

text \<open>
  A JavaScript \<open>number\<close> is only stored, passed on and tested against \<open>null\<close> by
  this program (the one computation, the challenge index, is exact; see
  \<open>startVerification\<close>), so it is a \<open>real\<close> here; \<open>null\<close> and \<open>undefined\<close> are
  \<open>None\<close>.
\<close>

record GyroData =
  alpha :: "real option"
  beta :: "real option"
  gamma :: "real option"

datatype LivenessStatus =
  IDLE | INITIALIZING | CHALLENGE_REQUESTED | RECORDING | VERIFYING | SUCCESS | FAILED

datatype Movement = tilt_up | tilt_down | rotate_left | rotate_right | steady

text \<open>The field \<open>id\<close> of the source is \<open>id'\<close>: \<open>id\<close> is HOL's identity function.\<close>

record Challenge =
  id' :: string
  instruction :: string
  expectedMovement :: Movement

record VerificationResult =
  isLive :: bool
  confidence :: real
  reasoning :: string

text \<open>
  The values \<open>JSON.parse\<close> can return. \<open>verifyLiveness\<close> casts such a value to
  \<open>VerificationResult\<close> without looking at it, so what the session stores as its
  result is a \<open>jsvalue\<close>, not a \<open>VerificationResult\<close>. An object is the list of its
  own properties, one pair for each key.
\<close>

datatype jsvalue =
  JNull | JBool bool | JNum real | JStr string | JArr "jsvalue list"
  | JObj "(string \<times> jsvalue) list"

definition verdict_value :: "VerificationResult \<Rightarrow> jsvalue" where
  "verdict_value v =
     JObj [(''isLive'', JBool (isLive v)), (''confidence'', JNum (confidence v)),
           (''reasoning'', JStr (reasoning v))]"

text \<open>Values a JavaScript \<open>throw\<close> of this program carries.\<close>

datatype exn = TypeError | SyntaxError | RemoteError string

section \<open>The component's state (src/App.tsx, lines 15-25)\<close>

record AppState =
  status :: LivenessStatus
  gyro :: GyroData
  currentChallenge :: "Challenge option"
  result :: "jsvalue option"
  isCameraReady :: bool
  isGyroReady :: bool
  error :: "string option"

text \<open>
  One constructor for each state setter of the component. A handler is the list of the
  setter calls it makes, in order; React applies them in that order.
\<close>

datatype update =
  SetStatus LivenessStatus
  | SetGyro GyroData
  | SetCurrentChallenge "Challenge option"
  | SetResult "jsvalue option"
  | SetIsCameraReady bool
  | SetIsGyroReady bool
  | SetError "string option"

fun apply_update :: "update \<Rightarrow> AppState \<Rightarrow> AppState" where
  "apply_update (SetStatus x) a = a\<lparr>status := x\<rparr>"
| "apply_update (SetGyro x) a = a\<lparr>gyro := x\<rparr>"
| "apply_update (SetCurrentChallenge x) a = a\<lparr>currentChallenge := x\<rparr>"
| "apply_update (SetResult x) a = a\<lparr>result := x\<rparr>"
| "apply_update (SetIsCameraReady x) a = a\<lparr>isCameraReady := x\<rparr>"
| "apply_update (SetIsGyroReady x) a = a\<lparr>isGyroReady := x\<rparr>"
| "apply_update (SetError x) a = a\<lparr>error := x\<rparr>"

fun commit :: "update list \<Rightarrow> AppState \<Rightarrow> AppState" where
  "commit [] a = a"
| "commit (u # us) a = commit us (apply_update u a)"

text \<open>The states the component passes through while a handler's setter calls are applied.\<close>

fun states_during :: "update list \<Rightarrow> AppState \<Rightarrow> AppState list" where
  "states_during [] a = [a]"
| "states_during (u # us) a = a # states_during us (apply_update u a)"

text \<open>
  Next to the component's state, the system holds what the handlers have left pending:
  the callbacks given to \<open>setTimeout\<close> that have not run yet, each with the \<open>gyro\<close>
  and \<open>challenge\<close> its closure captured, and the calls of
  \<open>geminiService.verifyLiveness\<close> that have not settled yet, each with its arguments.
  The handle \<open>setTimeout\<close> returns is dropped by the source and \<open>clearTimeout\<close> is
  never called, so a pending callback leaves the list only by running.
\<close>

type_synonym closure = "GyroData \<times> Challenge option"
type_synonym call = "string \<times> GyroData \<times> Challenge option"

text \<open>
  It also holds the click handlers of the button "Start Liveness Test" that have not
  finished: each waits for the answer about the motion sensor (in \<open>initializeGyro\<close>)
  and then for the answer about the camera (in \<open>startCamera\<close>).
\<close>

datatype SetupStage = AwaitGyro | AwaitCamera

record System =
  app :: AppState
  timers :: "closure list"
  inflight :: "call list"
  pending_setups :: "SetupStage list"

definition initial :: System where
  "initial =
     \<lparr>app = \<lparr>status = IDLE,
             gyro = \<lparr>alpha = Some 0, beta = Some 0, gamma = Some 0\<rparr>,
             currentChallenge = None, result = None,
             isCameraReady = False, isGyroReady = False, error = None\<rparr>,
      timers = [], inflight = [], pending_setups = []\<rparr>"

section \<open>reset (src/App.tsx, lines 194-199)\<close>

definition reset_updates :: "update list" where
  "reset_updates = [SetStatus IDLE, SetResult None, SetCurrentChallenge None, SetError None]"

definition reset :: "System \<Rightarrow> System" where
  "reset s = s\<lparr>app := commit reset_updates (app s)\<rparr>"

section \<open>startVerification (src/App.tsx, lines 7-12 and 163-192)\<close>

definition CHALLENGES :: "Challenge list" where
  "CHALLENGES =
     [\<lparr>id' = ''1'', instruction = ''Please tilt your phone UP slowly'',
       expectedMovement = tilt_up\<rparr>,
      \<lparr>id' = ''2'', instruction = ''Please tilt your phone DOWN slowly'',
       expectedMovement = tilt_down\<rparr>,
      \<lparr>id' = ''3'', instruction = ''Slowly rotate your phone to the LEFT'',
       expectedMovement = rotate_left\<rparr>,
      \<lparr>id' = ''4'', instruction = ''Slowly rotate your phone to the RIGHT'',
       expectedMovement = rotate_right\<rparr>]"

text \<open>Reading a JavaScript array: an index outside the array gives \<open>undefined\<close>.\<close>

definition at_index :: "'a list \<Rightarrow> int \<Rightarrow> 'a option" where
  "at_index xs i = (if 0 \<le> i \<and> i < int (length xs) then Some (xs ! nat i) else None)"

text \<open>
  \<open>CHALLENGES[Math.floor(Math.random() * CHALLENGES.length)]\<close>, where \<open>r\<close> is the
  value of \<open>Math.random()\<close>. The product of a double with 4 and its \<open>Math.floor\<close>
  are exact, so the computation over \<open>real\<close> is the program's.
\<close>

definition pick_challenge :: "real \<Rightarrow> Challenge option" where
  "pick_challenge r = at_index CHALLENGES \<lfloor>r * real (length CHALLENGES)\<rfloor>"

text \<open>The setter calls of \<open>startVerification\<close>, which come before \<open>setTimeout\<close>.\<close>

definition startVerification_updates :: "Challenge option \<Rightarrow> update list" where
  "startVerification_updates challenge =
     [SetResult None, SetError None, SetStatus INITIALIZING,
      SetCurrentChallenge challenge, SetStatus CHALLENGE_REQUESTED]"

text \<open>
  The callback is left pending with the \<open>gyro\<close> of the render the click came from and
  the \<open>challenge\<close> just picked.
\<close>

definition startVerification :: "real \<Rightarrow> System \<Rightarrow> System" where
  "startVerification r s =
     (let challenge = pick_challenge r
      in s\<lparr>app := commit (startVerification_updates challenge) (app s),
            timers := timers s @ [(gyro (app s), challenge)]\<rparr>)"

subsection \<open>captureFrame (lines 151-161)\<close>

text \<open>
  What \<open>captureFrame\<close> reads from the page: whether the two refs hold an element,
  whether the canvas gives a 2d context, and the data URL the canvas produces.
\<close>

record CaptureEnv =
  video_present :: bool
  canvas_present :: bool
  context_present :: bool
  dataURL :: string

text \<open>\<open>String.prototype.split\<close> with a one-character separator.\<close>

fun split_js :: "char \<Rightarrow> string \<Rightarrow> string list" where
  "split_js c [] = [[]]"
| "split_js c (x # xs) =
     (if x = c then [] # split_js c xs
      else (case split_js c xs of [] \<Rightarrow> [[x]] | y # ys \<Rightarrow> (x # y) # ys))"

definition captureFrame :: "CaptureEnv \<Rightarrow> string option" where
  "captureFrame env =
     (if \<not> video_present env \<or> \<not> canvas_present env then None
      else if \<not> context_present env then None
      else at_index (split_js CHR '','' (dataURL env)) 1)"

text \<open>\<open>!frame\<close>: \<open>null\<close>, \<open>undefined\<close> and the empty string are falsy.\<close>

definition no_frame :: "string option \<Rightarrow> bool" where
  "no_frame frame = (case frame of None \<Rightarrow> True | Some f \<Rightarrow> f = [])"

subsection \<open>The callback given to setTimeout (lines 174-191)\<close>

text \<open>The setter calls of the callback up to its \<open>return\<close> or its \<open>await\<close>.\<close>

definition timeout_updates :: "string option \<Rightarrow> update list" where
  "timeout_updates frame =
     SetStatus VERIFYING #
     (if no_frame frame
      then [SetError (Some ''Failed to capture camera frame.''), SetStatus IDLE]
      else [])"

text \<open>
  The \<open>k\<close>-th pending callback runs: it leaves the list, and when a frame was captured
  the call of \<open>verifyLiveness\<close> with the frame and the closure's \<open>gyro\<close> and
  \<open>challenge\<close> is in flight.
\<close>

definition timeout :: "nat \<Rightarrow> CaptureEnv \<Rightarrow> System \<Rightarrow> System" where
  "timeout k env s =
     (if k < length (timers s)
      then (let frame = captureFrame env; (g, c) = timers s ! k
            in s\<lparr>app := commit (timeout_updates frame) (app s),
                  timers := take k (timers s) @ drop (Suc k) (timers s),
                  inflight := (case frame of
                                 None \<Rightarrow> inflight s
                               | Some f \<Rightarrow> if f = [] then inflight s
                                           else inflight s @ [(f, g, c)])\<rparr>)
      else s)"

text \<open>
  Reading a property that no prototype defines, as \<open>verification.isLive\<close>: a
  \<open>TypeError\<close> on \<open>null\<close>, the own property of an object, \<open>undefined\<close> otherwise.
\<close>

fun property :: "jsvalue \<Rightarrow> string \<Rightarrow> exn + jsvalue option" where
  "property JNull name = Inl TypeError"
| "property (JObj kvs) name = Inr (map_of kvs name)"
| "property v name = Inr None"

text \<open>The condition of \<open>? :\<close>. A number from JSON is never NaN.\<close>

fun truthy :: "jsvalue option \<Rightarrow> bool" where
  "truthy None = False"
| "truthy (Some JNull) = False"
| "truthy (Some (JBool b)) = b"
| "truthy (Some (JNum x)) = (x \<noteq> 0)"
| "truthy (Some (JStr t)) = (t \<noteq> [])"
| "truthy (Some (JArr vs)) = True"
| "truthy (Some (JObj kvs)) = True"

text \<open>The argument of \<open>setResult\<close>: the state \<open>result\<close> holds \<open>null\<close> as \<open>None\<close>.\<close>

fun nullable :: "jsvalue \<Rightarrow> jsvalue option" where
  "nullable JNull = None"
| "nullable v = Some v"

definition catch_updates :: "update list" where
  "catch_updates =
     [SetError (Some ''Verification service unavailable. Check your internet connection.''),
      SetStatus IDLE]"

text \<open>
  The rest of the callback, once the promise of \<open>verifyLiveness\<close> has settled:
  \<open>Inl\<close> when it was rejected, \<open>Inr\<close> with the value it was fulfilled with.
\<close>

definition settled_updates :: "exn + jsvalue \<Rightarrow> update list" where
  "settled_updates outcome =
     (case outcome of
        Inl e \<Rightarrow> catch_updates
      | Inr verification \<Rightarrow>
          SetResult (nullable verification) #
          (case property verification ''isLive'' of
             Inl e \<Rightarrow> catch_updates
           | Inr p \<Rightarrow> [SetStatus (if truthy p then SUCCESS else FAILED)]))"

definition settled :: "nat \<Rightarrow> exn + jsvalue \<Rightarrow> System \<Rightarrow> System" where
  "settled k outcome s =
     (if k < length (inflight s)
      then s\<lparr>app := commit (settled_updates outcome) (app s),
             inflight := take k (inflight s) @ drop (Suc k) (inflight s)\<rparr>
      else s)"

section \<open>Sensor and camera (src/App.tsx, lines 31-149)\<close>

text \<open>\<open>handleOrientation\<close>, with the three readings of the event; \<open>x ?? 0\<close> is \<open>orZero\<close>.\<close>

definition orZero :: "real option \<Rightarrow> real" where
  "orZero x = (case x of None \<Rightarrow> 0 | Some y \<Rightarrow> y)"

definition handleOrientation_updates ::
  "real option \<Rightarrow> real option \<Rightarrow> real option \<Rightarrow> update list" where
  "handleOrientation_updates a b g =
     [SetGyro \<lparr>alpha = Some (orZero a), beta = Some (orZero b), gamma = Some (orZero g)\<rparr>,
      SetIsGyroReady True]"

definition handleOrientation ::
  "real option \<Rightarrow> real option \<Rightarrow> real option \<Rightarrow> System \<Rightarrow> System" where
  "handleOrientation a b g s = s\<lparr>app := commit (handleOrientation_updates a b g) (app s)\<rparr>"

text \<open>
  How the platform answers \<open>initializeGyro\<close>: permission granted and the event
  supported, permission refused, or no \<open>DeviceOrientationEvent\<close>.
\<close>

datatype GyroOutcome = GyroListening | GyroDenied | GyroUnsupported

definition initializeGyro_updates :: "GyroOutcome \<Rightarrow> update list" where
  "initializeGyro_updates g =
     (case g of
        GyroListening \<Rightarrow> []
      | GyroDenied \<Rightarrow>
          [SetError (Some (''Motion sensor access denied. '' @
             ''Please allow motion sensor permissions to continue.''))]
      | GyroUnsupported \<Rightarrow>
          [SetError (Some ''Device orientation not supported on this device.'')])"

text \<open>
  How the platform answers \<open>startCamera\<close>: a stream that is attached to the video
  element, a stream with no video element to attach it to, or an exception with its
  \<open>name\<close> and \<open>message\<close>.
\<close>

datatype CameraOutcome = CameraStream | CameraNoElement | CameraThrows string "string option"

definition startCamera_updates :: "CameraOutcome \<Rightarrow> update list" where
  "startCamera_updates c =
     (case c of
        CameraStream \<Rightarrow> [SetIsCameraReady True]
      | CameraNoElement \<Rightarrow> []
      | CameraThrows name message \<Rightarrow>
          [SetError (Some
            (if name = ''NotAllowedError'' \<or> name = ''PermissionDeniedError''
             then ''Camera access denied. Please allow camera permissions to continue.''
             else if name = ''NotFoundError'' \<or> name = ''DevicesNotFoundError''
             then ''No camera found. Please ensure your device has a camera.''
             else ''Camera error: '' @
                  (case message of
                     None \<Rightarrow> ''Unknown error''
                   | Some m \<Rightarrow> if m = [] then ''Unknown error'' else m)))])"

text \<open>
  The click handler of the button "Start Liveness Test" (lines 269-273) is
  \<open>await initializeGyro(); await startCamera()\<close>. It waits for the platform twice, and
  the button stays rendered while it waits, so several handlers can be pending at once.
  The click only leaves a handler pending (what \<open>initializeGyro\<close> does before its
  \<open>await\<close> writes no state).
\<close>

definition startLivenessTest_click :: "System \<Rightarrow> System" where
  "startLivenessTest_click s = s\<lparr>pending_setups := pending_setups s @ [AwaitGyro]\<rparr>"

text \<open>
  The \<open>k\<close>-th pending handler gets the answer about the motion sensor:
  \<open>initializeGyro\<close> finishes with its setter calls, and \<open>startCamera\<close> runs up to its
  \<open>await\<close>.
\<close>

definition initializeGyro_answered :: "nat \<Rightarrow> GyroOutcome \<Rightarrow> System \<Rightarrow> System" where
  "initializeGyro_answered k g s =
     (if k < length (pending_setups s) \<and> pending_setups s ! k = AwaitGyro
      then s\<lparr>app := commit (initializeGyro_updates g) (app s),
             pending_setups := (pending_setups s)[k := AwaitCamera]\<rparr>
      else s)"

text \<open>
  The \<open>k\<close>-th pending handler gets the answer about the camera, at the moment
  \<open>startCamera\<close> makes its one setter call: when \<open>getUserMedia\<close> has thrown, or when
  \<open>play()\<close> has settled. The handler is finished.
\<close>

definition startCamera_answered :: "nat \<Rightarrow> CameraOutcome \<Rightarrow> System \<Rightarrow> System" where
  "startCamera_answered k c s =
     (if k < length (pending_setups s) \<and> pending_setups s ! k = AwaitCamera
      then s\<lparr>app := commit (startCamera_updates c) (app s),
             pending_setups := take k (pending_setups s) @ drop (Suc k) (pending_setups s)\<rparr>
      else s)"

section \<open>verifyLiveness (class GeminiLivenessService)\<close>

text \<open>
  What the request carries: the two texts of the challenge, the three readings and the
  image. (The prompt prints a reading with \<open>toFixed(2)\<close>, and \<open>N/A\<close> for an absent
  one; the record holds the reading itself.)
\<close>

record Request =
  req_instruction :: string
  req_motion :: Movement
  req_alpha :: "real option"
  req_beta :: "real option"
  req_gamma :: "real option"
  req_image :: string

definition request :: "string \<Rightarrow> GyroData \<Rightarrow> Challenge \<Rightarrow> Request" where
  "request base64Image gyroData challenge =
     \<lparr>req_instruction = instruction challenge, req_motion = expectedMovement challenge,
      req_alpha = alpha gyroData, req_beta = beta gyroData, req_gamma = gamma gyroData,
      req_image = base64Image\<rparr>"

text \<open>\<open>response.text || '{}'\<close>: an \<open>undefined\<close> or empty text is replaced.\<close>

definition text_or_braces :: "string option \<Rightarrow> string" where
  "text_or_braces t = (case t of None \<Rightarrow> ''{}'' | Some b \<Rightarrow> if b = [] then ''{}'' else b)"

text \<open>
  \<open>JSON_parse\<close> is the platform's \<open>JSON.parse\<close> (\<open>None\<close>: it throws a
  \<open>SyntaxError\<close>) and \<open>generateContent\<close> the remote call, giving what it throws or
  \<open>response.text\<close>; both are parameters. Reading \<open>challenge.instruction\<close> of an
  \<open>undefined\<close> challenge throws. The \<open>catch\<close> logs and throws again. The value
  parsed is returned as it is: \<open>as VerificationResult\<close> checks nothing.
\<close>

definition verifyLiveness ::
  "(string \<Rightarrow> jsvalue option) \<Rightarrow> (Request \<Rightarrow> exn + string option)
   \<Rightarrow> string \<Rightarrow> GyroData \<Rightarrow> Challenge option \<Rightarrow> exn + jsvalue" where
  "verifyLiveness JSON_parse generateContent base64Image gyroData challenge =
     (case challenge of
        None \<Rightarrow> Inl TypeError
      | Some ch \<Rightarrow>
          (case generateContent (request base64Image gyroData ch) of
             Inl e \<Rightarrow> Inl e
           | Inr t \<Rightarrow>
               (case JSON_parse (text_or_braces t) of
                  None \<Rightarrow> Inl SyntaxError
                | Some v \<Rightarrow> Inr v)))"

text \<open>
  The shape the interface \<open>VerificationResult\<close> declares, which the program never
  tests: an object with a boolean \<open>isLive\<close>, a number \<open>confidence\<close> and a string
  \<open>reasoning\<close>.
\<close>

definition declared_shape :: "jsvalue \<Rightarrow> bool" where
  "declared_shape v =
     (case v of
        JObj kvs \<Rightarrow>
          (case (map_of kvs ''isLive'', map_of kvs ''confidence'', map_of kvs ''reasoning'') of
             (Some (JBool b), Some (JNum c), Some (JStr r)) \<Rightarrow> True
           | _ \<Rightarrow> False)
      | _ \<Rightarrow> False)"

text \<open>
  Two answers of the platform for concrete runs. \<open>JSON.parse('{}')\<close> is the empty
  object; \<open>JSON_parse_braces\<close> is \<open>JSON.parse\<close> on that text and is not used on any
  other. \<open>no_body\<close> is a remote call that answers with no text.
\<close>

definition JSON_parse_braces :: "string \<Rightarrow> jsvalue option" where
  "JSON_parse_braces t = (if t = ''{}'' then Some (JObj []) else None)"

definition no_body :: "Request \<Rightarrow> exn + string option" where
  "no_body req = Inr None"

section \<open>The session as a machine\<close>

text \<open>
  The events of the page. \<open>GyroAnswered k g\<close> and \<open>CameraAnswered k c\<close>: the
  \<open>k\<close>-th pending handler of "Start Liveness Test" gets an answer of the platform.
  \<open>Timeout k env\<close>: the \<open>k\<close>-th pending callback runs and \<open>captureFrame\<close> finds
  \<open>env\<close>. \<open>Settled k outcome\<close>: the \<open>k\<close>-th call in flight settles with
  \<open>outcome\<close>.
\<close>

datatype event =
  StartLivenessTest
  | GyroAnswered nat GyroOutcome
  | CameraAnswered nat CameraOutcome
  | DeviceOrientation "real option" "real option" "real option"
  | RunLivenessCheck real
  | Timeout nat CaptureEnv
  | Settled nat "exn + jsvalue"
  | Reset

text \<open>What each event does, whether or not the page offers it.\<close>

fun fire :: "event \<Rightarrow> System \<Rightarrow> System" where
  "fire StartLivenessTest s = startLivenessTest_click s"
| "fire (GyroAnswered k g) s = initializeGyro_answered k g s"
| "fire (CameraAnswered k c) s = startCamera_answered k c s"
| "fire (DeviceOrientation a b g) s = handleOrientation a b g s"
| "fire (RunLivenessCheck r) s = startVerification r s"
| "fire (Timeout k env) s = timeout k env s"
| "fire (Settled k outcome) s = settled k outcome s"
| "fire Reset s = reset s"

text \<open>The setter calls the event makes.\<close>

fun writes :: "event \<Rightarrow> System \<Rightarrow> update list" where
  "writes StartLivenessTest s = []"
| "writes (GyroAnswered k g) s =
     (if k < length (pending_setups s) \<and> pending_setups s ! k = AwaitGyro
      then initializeGyro_updates g else [])"
| "writes (CameraAnswered k c) s =
     (if k < length (pending_setups s) \<and> pending_setups s ! k = AwaitCamera
      then startCamera_updates c else [])"
| "writes (DeviceOrientation a b g) s = handleOrientation_updates a b g"
| "writes (RunLivenessCheck r) s = startVerification_updates (pick_challenge r)"
| "writes (Timeout k env) s =
     (if k < length (timers s) then timeout_updates (captureFrame env) else [])"
| "writes (Settled k outcome) s =
     (if k < length (inflight s) then settled_updates outcome else [])"
| "writes Reset s = reset_updates"

text \<open>
  When the event can happen. A button can be clicked when the JSX renders it
  (lines 259, 281, 298 and 319); \<open>Math.random()\<close> is at least 0 and less than 1; a
  pending handler, callback or call gets its answer at any time, whatever the state then
  is; an orientation event may come at any time.
\<close>

fun enabled :: "event \<Rightarrow> System \<Rightarrow> bool" where
  "enabled StartLivenessTest s = (status (app s) = IDLE \<and> \<not> isCameraReady (app s))"
| "enabled (GyroAnswered k g) s =
     (k < length (pending_setups s) \<and> pending_setups s ! k = AwaitGyro)"
| "enabled (CameraAnswered k c) s =
     (k < length (pending_setups s) \<and> pending_setups s ! k = AwaitCamera)"
| "enabled (DeviceOrientation a b g) s = True"
| "enabled (RunLivenessCheck r) s =
     (isCameraReady (app s) \<and> isGyroReady (app s) \<and> status (app s) = IDLE
      \<and> 0 \<le> r \<and> r < 1)"
| "enabled (Timeout k env) s = (k < length (timers s))"
| "enabled (Settled k outcome) s = (k < length (inflight s))"
| "enabled Reset s = (status (app s) = SUCCESS \<or> status (app s) = FAILED)"

text \<open>An event that cannot happen leaves the system as it is.\<close>

definition step :: "event \<Rightarrow> System \<Rightarrow> System" where
  "step e s = (if enabled e s then fire e s else s)"

fun run :: "event list \<Rightarrow> System \<Rightarrow> System" where
  "run [] s = s"
| "run (e # es) s = run es (step e s)"

text \<open>Whether \<open>verification.isLive ? ... : ...\<close> takes its first branch.\<close>

definition live :: "jsvalue \<Rightarrow> bool" where
  "live v = (case property v ''isLive'' of Inl e \<Rightarrow> False | Inr p \<Rightarrow> truthy p)"

text \<open>
  What holds of the system in each status between two events: at most one callback or
  call is pending, and which one is fixed by the status; a result is stored exactly in
  \<open>SUCCESS\<close> and \<open>FAILED\<close>.
\<close>

definition attempt_inv :: "System \<Rightarrow> bool" where
  "attempt_inv s =
     (case status (app s) of
        IDLE \<Rightarrow> timers s = [] \<and> inflight s = [] \<and> result (app s) = None
      | CHALLENGE_REQUESTED \<Rightarrow>
          length (timers s) = 1 \<and> inflight s = [] \<and> result (app s) = None
      | VERIFYING \<Rightarrow>
          timers s = [] \<and> length (inflight s) = 1 \<and> result (app s) = None
      | SUCCESS \<Rightarrow>
          timers s = [] \<and> inflight s = []
          \<and> (case result (app s) of None \<Rightarrow> False | Some v \<Rightarrow> live v)
      | FAILED \<Rightarrow>
          timers s = [] \<and> inflight s = []
          \<and> (case result (app s) of None \<Rightarrow> False | Some v \<Rightarrow> \<not> live v)
      | INITIALIZING \<Rightarrow> False
      | RECORDING \<Rightarrow> False)"

text \<open>
  The set-up is over: the camera is ready and no handler of "Start Liveness Test" is
  pending (none can then be started again), and no error is left outside \<open>IDLE\<close>.
\<close>

definition calm :: "System \<Rightarrow> bool" where
  "calm s =
     (pending_setups s = [] \<and> isCameraReady (app s)
      \<and> (status (app s) = IDLE \<or> error (app s) = None))"

definition all_present :: "GyroData \<Rightarrow> bool" where
  "all_present g = (alpha g \<noteq> None \<and> beta g \<noteq> None \<and> gamma g \<noteq> None)"

text \<open>The statuses the session's machine is described with; \<open>RECORDING\<close> is not one.\<close>

definition session_status :: "LivenessStatus \<Rightarrow> bool" where
  "session_status x =
     (x \<in> {IDLE, INITIALIZING, CHALLENGE_REQUESTED, VERIFYING, SUCCESS, FAILED})"

text \<open>Every event of the list can happen when its turn comes.\<close>

fun all_enabled :: "event list \<Rightarrow> System \<Rightarrow> bool" where
  "all_enabled [] s = True"
| "all_enabled (e # es) s = (enabled e s \<and> all_enabled es (step e s))"

text \<open>
  Concrete states and values for the examples: \<open>ready\<close>, after one click on "Start
  Liveness Test" has been answered and camera and sensor are up; \<open>requested\<close>, a
  session of \<open>ready\<close> whose callback is pending; \<open>verifying\<close>, the same session once
  a frame was captured and the call is in flight; \<open>capture_failed\<close>, the same session
  once no frame was captured; \<open>succeeded\<close>, once the call was fulfilled with
  \<open>live_verdict\<close>.
\<close>

definition sample_gyro :: GyroData where
  "sample_gyro = \<lparr>alpha = Some 10, beta = Some 0, gamma = Some (-3)\<rparr>"

definition prepare :: "event list" where
  "prepare = [StartLivenessTest, GyroAnswered 0 GyroListening, CameraAnswered 0 CameraStream,
              DeviceOrientation (Some 10) None (Some (-3))]"

definition ready :: System where
  "ready = run prepare initial"

definition a_frame :: CaptureEnv where
  "a_frame = \<lparr>video_present = True, canvas_present = True, context_present = True,
              dataURL = ''data:image/jpeg;base64,AAAA''\<rparr>"

definition no_video :: CaptureEnv where
  "no_video = \<lparr>video_present = False, canvas_present = True, context_present = True,
               dataURL = []\<rparr>"

definition requested :: System where
  "requested = step (RunLivenessCheck (3/5)) ready"

definition verifying :: System where
  "verifying = step (Timeout 0 a_frame) requested"

definition capture_failed :: System where
  "capture_failed = step (Timeout 0 no_video) requested"

definition live_verdict :: VerificationResult where
  "live_verdict =
     \<lparr>isLive = True, confidence = 92/100, reasoning = ''synchronized motion''\<rparr>"

definition spoof_verdict :: VerificationResult where
  "spoof_verdict =
     \<lparr>isLive = False, confidence = 3/10, reasoning = ''no depth detected''\<rparr>"

definition succeeded :: System where
  "succeeded = step (Settled 0 (Inr (verdict_value live_verdict))) verifying"

text \<open>
  A second click on "Start Liveness Test" before the first is answered. The first
  handler brings the camera up and a session starts and captures its frame; then the
  second handler's \<open>getUserMedia\<close> throws, while the call of the session is in flight.
\<close>

definition double_click :: "event list" where
  "double_click =
     [StartLivenessTest, StartLivenessTest,
      GyroAnswered 0 GyroListening, CameraAnswered 0 CameraStream,
      DeviceOrientation (Some 10) None (Some (-3)),
      RunLivenessCheck (3/5), Timeout 0 a_frame,
      GyroAnswered 0 GyroListening,
      CameraAnswered 0 (CameraThrows ''NotReadableError'' (Some ''busy''))]"

definition late_error :: System where
  "late_error = run double_click initial"

definition late_success :: System where
  "late_success = step (Settled 0 (Inr (verdict_value live_verdict))) late_error"

section \<open>Properties\<close>

subsection \<open>The invariants\<close>

text \<open>
  \<open>writes\<close> lists the setter calls that \<open>fire\<close> applies (\<open>app_fire\<close>).
  \<open>attempt_inv\<close> holds initially and after every event, hence in every state the
  events of the page lead to. \<open>calm\<close>, once it holds, holds after every event.
\<close>

lemma app_fire: "app (fire e s) = commit (writes e s) (app s)"
  by (cases e)
     (simp_all add: startLivenessTest_click_def initializeGyro_answered_def
        startCamera_answered_def handleOrientation_def startVerification_def
        timeout_def settled_def reset_def Let_def split: prod.splits)

lemma run_append: "run (xs @ ys) s = run ys (run xs s)"
  by (induction xs arbitrary: s) simp_all

lemma pick_challenge_in_catalog:
  assumes "0 \<le> r" "r < 1"
  shows "\<exists>c \<in> set CHALLENGES. pick_challenge r = Some c"
proof -
  have len: "length CHALLENGES = 4" by (simp add: CHALLENGES_def)
  have "0 \<le> \<lfloor>r * 4\<rfloor>" using assms by simp
  moreover have "\<lfloor>r * 4\<rfloor> < 4" using assms by (simp add: floor_less_iff)
  ultimately show ?thesis
    by (simp add: pick_challenge_def at_index_def len nat_less_iff)
qed

lemma property_Inl: "property v n = Inl x \<Longrightarrow> nullable v = None"
  by (cases v) simp_all

lemma property_Inr: "property v n = Inr p \<Longrightarrow> nullable v = Some v"
  by (cases v) simp_all

lemma attempt_inv_initial: "attempt_inv initial"
  by (simp add: attempt_inv_def initial_def)

lemma attempt_inv_step: "attempt_inv s \<Longrightarrow> attempt_inv (step e s)"
proof (cases e)
  case StartLivenessTest
  then show "attempt_inv s \<Longrightarrow> attempt_inv (step e s)"
    by (auto simp: step_def attempt_inv_def startLivenessTest_click_def)
next
  case (GyroAnswered k g)
  then show "attempt_inv s \<Longrightarrow> attempt_inv (step e s)"
    by (cases g)
       (auto simp: step_def attempt_inv_def initializeGyro_answered_def
          initializeGyro_updates_def split: LivenessStatus.splits)
next
  case (CameraAnswered k c)
  then show "attempt_inv s \<Longrightarrow> attempt_inv (step e s)"
    by (cases c)
       (auto simp: step_def attempt_inv_def startCamera_answered_def
          startCamera_updates_def split: LivenessStatus.splits)
next
  case (DeviceOrientation a b g)
  then show "attempt_inv s \<Longrightarrow> attempt_inv (step e s)"
    by (auto simp: step_def attempt_inv_def handleOrientation_def handleOrientation_updates_def
          split: LivenessStatus.splits)
next
  case (RunLivenessCheck r)
  then show "attempt_inv s \<Longrightarrow> attempt_inv (step e s)"
    by (auto simp: step_def attempt_inv_def startVerification_def startVerification_updates_def
          Let_def)
next
  case (Timeout k env)
  then show "attempt_inv s \<Longrightarrow> attempt_inv (step e s)"
    by (auto simp: step_def attempt_inv_def timeout_def timeout_updates_def no_frame_def
          Let_def split: LivenessStatus.splits option.splits prod.splits)
next
  case (Settled k outcome)
  then show "attempt_inv s \<Longrightarrow> attempt_inv (step e s)"
    by (cases outcome)
       (auto simp: step_def attempt_inv_def settled_def settled_updates_def catch_updates_def
          live_def property_Inl property_Inr split: LivenessStatus.splits sum.splits)
next
  case Reset
  then show "attempt_inv s \<Longrightarrow> attempt_inv (step e s)"
    by (auto simp: step_def attempt_inv_def reset_def reset_updates_def)
qed

lemma attempt_inv_run: "attempt_inv s \<Longrightarrow> attempt_inv (run es s)"
  by (induction es arbitrary: s) (simp_all add: attempt_inv_step)

lemma attempt_inv_reachable: "attempt_inv (run es initial)"
  by (simp add: attempt_inv_run attempt_inv_initial)

lemma pending_status:
  assumes "attempt_inv s"
  shows "k < length (timers s) \<Longrightarrow> status (app s) = CHALLENGE_REQUESTED"
    and "k < length (inflight s) \<Longrightarrow> status (app s) = VERIFYING"
  using assms by (cases "status (app s)"; simp add: attempt_inv_def)+

lemma calm_step:
  assumes "attempt_inv s" and "calm s"
  shows "calm (step e s)"
proof (cases e)
  case StartLivenessTest
  with assms(2) show ?thesis by (simp add: step_def calm_def)
next
  case (GyroAnswered k g)
  with assms(2) show ?thesis by (simp add: step_def calm_def)
next
  case (CameraAnswered k c)
  with assms(2) show ?thesis by (simp add: step_def calm_def)
next
  case (DeviceOrientation a b g)
  with assms(2) show ?thesis
    by (auto simp: step_def calm_def handleOrientation_def handleOrientation_updates_def)
next
  case (RunLivenessCheck r)
  with assms(2) show ?thesis
    by (auto simp: step_def calm_def startVerification_def startVerification_updates_def
          Let_def)
next
  case (Timeout k env)
  show ?thesis
  proof (cases "k < length (timers s)")
    case True
    have "status (app s) = CHALLENGE_REQUESTED" by (rule pending_status(1) [OF assms(1) True])
    with assms(2) have "error (app s) = None" by (simp add: calm_def)
    with assms(2) True Timeout show ?thesis
      by (auto simp: step_def calm_def timeout_def timeout_updates_def Let_def
            split: prod.splits)
  next
    case False
    with assms(2) Timeout show ?thesis by (simp add: step_def)
  qed
next
  case (Settled k outcome)
  show ?thesis
  proof (cases "k < length (inflight s)")
    case True
    have "status (app s) = VERIFYING" by (rule pending_status(2) [OF assms(1) True])
    with assms(2) have "error (app s) = None" by (simp add: calm_def)
    with assms(2) True Settled show ?thesis
      by (auto simp: step_def calm_def settled_def settled_updates_def catch_updates_def
            split: sum.splits)
  next
    case False
    with assms(2) Settled show ?thesis by (simp add: step_def)
  qed
next
  case Reset
  with assms(2) show ?thesis
    by (auto simp: step_def calm_def reset_def reset_updates_def)
qed

lemma calm_run: "attempt_inv s \<Longrightarrow> calm s \<Longrightarrow> calm (run es s)"
  by (induction es arbitrary: s) (simp_all add: attempt_inv_step calm_step)

lemma calm_later: "calm (run es initial) \<Longrightarrow> calm (run es' (run es initial))"
  by (simp add: calm_run attempt_inv_reachable)

lemma attempt_inv_later: "attempt_inv (run es' (run es initial))"
  by (simp add: attempt_inv_run attempt_inv_reachable)

subsection \<open>The example states\<close>

lemma captureFrame_a_frame: "captureFrame a_frame = Some ''AAAA''"
  by (simp add: captureFrame_def a_frame_def at_index_def)

lemma captureFrame_no_video: "captureFrame no_video = None"
  by (simp add: captureFrame_def no_video_def)

lemma pick_three_fifths: "pick_challenge (3/5) = Some (CHALLENGES ! 2)"
  by (simp add: pick_challenge_def at_index_def CHALLENGES_def)

lemma ready_eq:
  "ready =
     \<lparr>app = \<lparr>status = IDLE, gyro = sample_gyro, currentChallenge = None, result = None,
             isCameraReady = True, isGyroReady = True, error = None\<rparr>,
      timers = [], inflight = [], pending_setups = []\<rparr>"
  by (simp add: ready_def prepare_def initial_def step_def startLivenessTest_click_def
      initializeGyro_answered_def startCamera_answered_def initializeGyro_updates_def
      startCamera_updates_def handleOrientation_def handleOrientation_updates_def orZero_def
      sample_gyro_def)

lemma requested_eq:
  "requested =
     \<lparr>app = \<lparr>status = CHALLENGE_REQUESTED, gyro = sample_gyro,
             currentChallenge = Some (CHALLENGES ! 2), result = None,
             isCameraReady = True, isGyroReady = True, error = None\<rparr>,
      timers = [(sample_gyro, Some (CHALLENGES ! 2))], inflight = [], pending_setups = []\<rparr>"
  by (simp add: requested_def ready_eq step_def startVerification_def
      startVerification_updates_def pick_three_fifths Let_def)

lemma verifying_eq:
  "verifying =
     \<lparr>app = \<lparr>status = VERIFYING, gyro = sample_gyro,
             currentChallenge = Some (CHALLENGES ! 2), result = None,
             isCameraReady = True, isGyroReady = True, error = None\<rparr>,
      timers = [], inflight = [(''AAAA'', sample_gyro, Some (CHALLENGES ! 2))],
      pending_setups = []\<rparr>"
  unfolding verifying_def requested_eq
  by (simp add: step_def timeout_def timeout_updates_def captureFrame_a_frame no_frame_def)

lemma capture_failed_eq:
  "capture_failed =
     \<lparr>app = \<lparr>status = IDLE, gyro = sample_gyro,
             currentChallenge = Some (CHALLENGES ! 2), result = None,
             isCameraReady = True, isGyroReady = True,
             error = Some ''Failed to capture camera frame.''\<rparr>,
      timers = [], inflight = [], pending_setups = []\<rparr>"
  unfolding capture_failed_def requested_eq
  by (simp add: step_def timeout_def timeout_updates_def captureFrame_no_video no_frame_def)

lemma isLive_verdict_value:
  "property (verdict_value v) ''isLive'' = Inr (Some (JBool (isLive v)))"
  by (simp add: verdict_value_def)

lemma succeeded_eq:
  "succeeded =
     \<lparr>app = \<lparr>status = SUCCESS, gyro = sample_gyro,
             currentChallenge = Some (CHALLENGES ! 2),
             result = Some (verdict_value live_verdict),
             isCameraReady = True, isGyroReady = True, error = None\<rparr>,
      timers = [], inflight = [], pending_setups = []\<rparr>"
  unfolding succeeded_def verifying_eq
  by (simp add: step_def settled_def settled_updates_def isLive_verdict_value live_verdict_def)
     (simp add: verdict_value_def)

lemma ready_reachable: "ready = run prepare initial"
  by (simp add: ready_def)

lemma requested_reachable: "requested = run (prepare @ [RunLivenessCheck (3/5)]) initial"
  by (simp add: requested_def ready_def run_append)

lemma verifying_reachable:
  "verifying = run (prepare @ [RunLivenessCheck (3/5), Timeout 0 a_frame]) initial"
  by (simp add: verifying_def requested_def ready_def run_append)

lemma capture_failed_reachable:
  "capture_failed = run (prepare @ [RunLivenessCheck (3/5), Timeout 0 no_video]) initial"
  by (simp add: capture_failed_def requested_def ready_def run_append)


lemma calm_ready: "calm (run prepare initial)"
  using ready_eq by (simp add: calm_def ready_def)

lemma requested_later: "requested = run [RunLivenessCheck (3/5)] (run prepare initial)"
  by (simp add: requested_def ready_def)

lemma verifying_later:
  "verifying = run [RunLivenessCheck (3/5), Timeout 0 a_frame] (run prepare initial)"
  by (simp add: verifying_def requested_def ready_def)

lemma succeeded_later:
  "succeeded =
     run [RunLivenessCheck (3/5), Timeout 0 a_frame,
          Settled 0 (Inr (verdict_value live_verdict))] (run prepare initial)"
  by (simp add: succeeded_def verifying_def requested_def ready_def)

lemma late_error_eq:
  "late_error =
     \<lparr>app = \<lparr>status = VERIFYING, gyro = sample_gyro,
             currentChallenge = Some (CHALLENGES ! 2), result = None,
             isCameraReady = True, isGyroReady = True,
             error = Some ''Camera error: busy''\<rparr>,
      timers = [], inflight = [(''AAAA'', sample_gyro, Some (CHALLENGES ! 2))],
      pending_setups = []\<rparr>"
  by (simp add: late_error_def double_click_def initial_def step_def
      startLivenessTest_click_def initializeGyro_answered_def startCamera_answered_def
      initializeGyro_updates_def startCamera_updates_def handleOrientation_def
      handleOrientation_updates_def orZero_def sample_gyro_def startVerification_def
      startVerification_updates_def pick_three_fifths Let_def timeout_def timeout_updates_def
      captureFrame_a_frame no_frame_def)

lemma late_success_eq:
  "late_success =
     \<lparr>app = \<lparr>status = SUCCESS, gyro = sample_gyro,
             currentChallenge = Some (CHALLENGES ! 2),
             result = Some (verdict_value live_verdict),
             isCameraReady = True, isGyroReady = True,
             error = Some ''Camera error: busy''\<rparr>,
      timers = [], inflight = [], pending_setups = []\<rparr>"
  unfolding late_success_def late_error_eq
  by (simp add: step_def settled_def settled_updates_def isLive_verdict_value live_verdict_def)
     (simp add: verdict_value_def)

subsection \<open>Facts about single handlers\<close>

lemma catalog_ids: "c \<in> set CHALLENGES \<Longrightarrow> id' c \<in> {''1'', ''2'', ''3'', ''4''}"
  by (auto simp: CHALLENGES_def)

lemma all_present_step: "all_present (gyro (app s)) \<Longrightarrow> all_present (gyro (app (step e s)))"
  by (cases e)
     (auto simp: step_def all_present_def startLivenessTest_click_def
        initializeGyro_answered_def startCamera_answered_def initializeGyro_updates_def
        startCamera_updates_def handleOrientation_def handleOrientation_updates_def
        startVerification_def startVerification_updates_def timeout_def timeout_updates_def
        settled_def settled_updates_def catch_updates_def reset_def reset_updates_def Let_def
        split: GyroOutcome.splits CameraOutcome.splits prod.splits sum.splits)

lemma all_present_run: "all_present (gyro (app s)) \<Longrightarrow> all_present (gyro (app (run es s)))"
  by (induction es arbitrary: s) (simp_all add: all_present_step)

lemma writes_no_recording: "SetStatus RECORDING \<notin> set (writes e s)"
  by (cases e)
     (auto simp: initializeGyro_updates_def startCamera_updates_def
        handleOrientation_updates_def startVerification_updates_def timeout_updates_def
        settled_updates_def catch_updates_def reset_updates_def
        split: GyroOutcome.splits CameraOutcome.splits sum.splits)

lemma states_during_status:
  "session_status (status a) \<Longrightarrow> SetStatus RECORDING \<notin> set us
   \<Longrightarrow> a' \<in> set (states_during us a) \<Longrightarrow> session_status (status a')"
proof (induction us arbitrary: a)
  case Nil
  then show ?case by simp
next
  case (Cons u us)
  have "session_status (status (apply_update u a))"
    using Cons.prems(1,2) by (cases u) (auto simp: session_status_def, (case_tac x1; simp)+)
  with Cons show ?case by auto
qed

lemma session_status_reachable: "session_status (status (app (run es initial)))"
  using attempt_inv_reachable [of es]
  by (cases "status (app (run es initial))") (simp_all add: attempt_inv_def session_status_def)

lemma verifyLiveness_Inr:
  "generateContent (request img g ch) = Inr t \<Longrightarrow> JSON_parse (text_or_braces t) = Some v
   \<Longrightarrow> verifyLiveness JSON_parse generateContent img g (Some ch) = Inr v"
  by (simp add: verifyLiveness_def)

lemma verifyLiveness_Inl_iff:
  "(\<exists>e. verifyLiveness JSON_parse generateContent img g (Some ch) = Inl e)
   \<longleftrightarrow> (\<exists>e. generateContent (request img g ch) = Inl e)
       \<or> (\<exists>t. generateContent (request img g ch) = Inr t
              \<and> JSON_parse (text_or_braces t) = None)"
  by (auto simp: verifyLiveness_def split: sum.splits option.splits)

lemma settled_value:
  assumes "k < length (inflight s)" and "v \<noteq> JNull"
  shows "result (app (step (Settled k (Inr v)) s)) = Some v
    \<and> status (app (step (Settled k (Inr v)) s)) = (if live v then SUCCESS else FAILED)
    \<and> error (app (step (Settled k (Inr v)) s)) = error (app s)"
proof -
  from assms(2) obtain p where p: "property v ''isLive'' = Inr p"
    by (cases v) simp_all
  with assms(1) show ?thesis
    by (simp add: step_def settled_def settled_updates_def property_Inr live_def)
qed

lemma settled_failed:
  assumes "attempt_inv s" and "k < length (inflight s)"
    and "outcome = Inr JNull \<or> (\<exists>e. outcome = Inl e)"
  shows "status (app (step (Settled k outcome) s)) = IDLE
    \<and> error (app (step (Settled k outcome) s))
        = Some ''Verification service unavailable. Check your internet connection.''
    \<and> result (app (step (Settled k outcome) s)) = None"
proof -
  from assms(1,2) have "result (app s) = None"
    by (cases "status (app s)") (simp_all add: attempt_inv_def)
  with assms(2,3) show ?thesis
    by (auto simp: step_def settled_def settled_updates_def catch_updates_def)
qed

subsection \<open>The claims\<close>

text \<open>
  C1 as stated fails where it says that no error is set. After a second click on "Start
  Liveness Test" a handler is still pending when the session runs; its \<open>getUserMedia\<close>
  throws while the call of the session is in flight (every event of \<open>double_click\<close>
  can happen in its turn). The call is then fulfilled with a verdict, and the session is
  in \<open>SUCCESS\<close> with that verdict and with the error of the camera.
\<close>

theorem late_setup_error_counterexample:
  "all_enabled double_click initial
   \<and> late_error = run double_click initial
   \<and> 0 < length (inflight late_error)
   \<and> property (verdict_value live_verdict) ''isLive'' = Inr (Some (JBool True))
   \<and> result (app (step (Settled 0 (Inr (verdict_value live_verdict))) late_error))
       = Some (verdict_value live_verdict)
   \<and> status (app (step (Settled 0 (Inr (verdict_value live_verdict))) late_error)) = SUCCESS
   \<and> error (app (step (Settled 0 (Inr (verdict_value live_verdict))) late_error))
       = Some ''Camera error: busy''"
proof -
  have "all_enabled double_click initial"
    by (simp add: double_click_def initial_def step_def
        startLivenessTest_click_def initializeGyro_answered_def startCamera_answered_def
        initializeGyro_updates_def startCamera_updates_def handleOrientation_def
        handleOrientation_updates_def orZero_def startVerification_def
        startVerification_updates_def pick_three_fifths Let_def timeout_def timeout_updates_def
        captureFrame_a_frame no_frame_def)
  moreover have "late_error = run double_click initial" by (simp add: late_error_def)
  moreover have "0 < length (inflight late_error)" by (simp add: late_error_eq)
  moreover have "step (Settled 0 (Inr (verdict_value live_verdict))) late_error = late_success"
    by (simp add: late_success_def)
  ultimately show ?thesis
    by (simp add: late_success_eq isLive_verdict_value live_verdict_def)
qed

text \<open>
  C1, amended. Whenever a call of \<open>verifyLiveness\<close> is in flight (only \<open>timeout\<close> puts
  one in flight, and only with a captured frame) and it is fulfilled with a value whose
  \<open>isLive\<close> is the boolean \<open>b\<close>, the session stores that very value as its result and
  goes to \<open>SUCCESS\<close> if \<open>b\<close> is true and to \<open>FAILED\<close> if it is false; doing so it sets
  no error, but leaves the error as it was. And no error is set then, if the set-up was
  over at some moment before (the camera ready, no handler of "Start Liveness Test"
  pending, the session idle or without error).
\<close>

theorem verdict_stored:
  assumes "s = run es' (run es initial)" and "k < length (inflight s)"
    and "property v ''isLive'' = Inr (Some (JBool b))"
  shows "result (app (step (Settled k (Inr v)) s)) = Some v
    \<and> status (app (step (Settled k (Inr v)) s)) = (if b then SUCCESS else FAILED)
    \<and> error (app (step (Settled k (Inr v)) s)) = error (app s)
    \<and> (calm (run es initial) \<longrightarrow> error (app (step (Settled k (Inr v)) s)) = None)"
proof -
  have writes: "result (app (step (Settled k (Inr v)) s)) = Some v
    \<and> status (app (step (Settled k (Inr v)) s)) = (if b then SUCCESS else FAILED)
    \<and> error (app (step (Settled k (Inr v)) s)) = error (app s)"
    using assms(2,3) by (simp add: step_def settled_def settled_updates_def property_Inr)
  have inv: "attempt_inv s" unfolding assms(1) by (rule attempt_inv_later)
  have "error (app s) = None" if "calm (run es initial)"
  proof -
    have "calm s" unfolding assms(1) using that by (rule calm_later)
    moreover have "status (app s) = VERIFYING" by (rule pending_status(2) [OF inv assms(2)])
    ultimately show ?thesis by (simp add: calm_def)
  qed
  with writes show ?thesis by simp
qed

theorem verdict_stored_witness:
  "verifying = run [RunLivenessCheck (3/5), Timeout 0 a_frame] (run prepare initial)
   \<and> calm (run prepare initial)
   \<and> 0 < length (inflight verifying)
   \<and> property (verdict_value live_verdict) ''isLive'' = Inr (Some (JBool True))
   \<and> result (app (step (Settled 0 (Inr (verdict_value live_verdict))) verifying))
       = Some (verdict_value live_verdict)
   \<and> status (app (step (Settled 0 (Inr (verdict_value live_verdict))) verifying)) = SUCCESS
   \<and> error (app (step (Settled 0 (Inr (verdict_value live_verdict))) verifying)) = None
   \<and> property (verdict_value spoof_verdict) ''isLive'' = Inr (Some (JBool False))
   \<and> result (app (step (Settled 0 (Inr (verdict_value spoof_verdict))) verifying))
       = Some (verdict_value spoof_verdict)
   \<and> status (app (step (Settled 0 (Inr (verdict_value spoof_verdict))) verifying)) = FAILED
   \<and> error (app (step (Settled 0 (Inr (verdict_value spoof_verdict))) verifying)) = None"
proof -
  have k: "0 < length (inflight verifying)" by (simp add: verifying_eq)
  have p: "property (verdict_value live_verdict) ''isLive'' = Inr (Some (JBool True))"
    by (simp add: isLive_verdict_value live_verdict_def)
  have q: "property (verdict_value spoof_verdict) ''isLive'' = Inr (Some (JBool False))"
    by (simp add: isLive_verdict_value spoof_verdict_def)
  have t: "(if True then SUCCESS else FAILED) = SUCCESS"
    and f: "(if False then SUCCESS else FAILED) = FAILED" by simp_all
  show ?thesis
    using verdict_stored [OF verifying_later k p] verdict_stored [OF verifying_later k q]
      verifying_later calm_ready k p q
    unfolding t f by blast
qed



text \<open>
  C3 as stated fails: when the remote call answers with no text, \<open>verifyLiveness\<close>
  parses \<open>'{}'\<close> instead and returns the empty object, which has none of the three
  fields. The session stores it as its result and goes to \<open>FAILED\<close> with no error.
\<close>

theorem missing_body_counterexample:
  "inflight verifying = [(''AAAA'', sample_gyro, Some (CHALLENGES ! 2))]
   \<and> no_body (request ''AAAA'' sample_gyro (CHALLENGES ! 2)) = Inr None
   \<and> verifyLiveness JSON_parse_braces no_body ''AAAA'' sample_gyro (Some (CHALLENGES ! 2))
       = Inr (JObj [])
   \<and> \<not> declared_shape (JObj [])
   \<and> result (app (step (Settled 0 (verifyLiveness JSON_parse_braces no_body ''AAAA''
         sample_gyro (Some (CHALLENGES ! 2)))) verifying)) = Some (JObj [])
   \<and> status (app (step (Settled 0 (verifyLiveness JSON_parse_braces no_body ''AAAA''
         sample_gyro (Some (CHALLENGES ! 2)))) verifying)) = FAILED
   \<and> error (app (step (Settled 0 (verifyLiveness JSON_parse_braces no_body ''AAAA''
         sample_gyro (Some (CHALLENGES ! 2)))) verifying)) = None"
proof -
  have v: "verifyLiveness JSON_parse_braces no_body ''AAAA'' sample_gyro
      (Some (CHALLENGES ! 2)) = Inr (JObj [])"
    by (simp add: verifyLiveness_def no_body_def JSON_parse_braces_def text_or_braces_def)
  show ?thesis
    unfolding v
    by (simp add: verifying_eq no_body_def declared_shape_def step_def settled_def
        settled_updates_def)
qed

text \<open>
  C3, amended. \<open>verifyLiveness\<close> fails exactly when the remote call throws or
  \<open>JSON.parse\<close> rejects the text, an empty or missing text being replaced by
  \<open>'{}'\<close> first. Whatever \<open>JSON.parse\<close> returns is returned as it is, no field being
  looked at. When the call fails, or returns \<open>null\<close> (reading its \<open>isLive\<close> throws),
  the session goes to \<open>IDLE\<close> with the connectivity error and no result. Any other
  value returned is stored as the result, and the session goes to \<open>SUCCESS\<close> or
  \<open>FAILED\<close> as the value's \<open>isLive\<close> is truthy or not, leaving the error as it was.
  For an empty or missing text that value is the empty object and the status
  \<open>FAILED\<close>. (This is about the state of the component, not about what is rendered
  from it.)
\<close>

theorem parsed_value_stored_unchecked:
  assumes "s = run es initial" and "k < length (inflight s)"
    and "outcome = verifyLiveness JSON_parse generateContent img g (Some ch)"
  shows
    "(generateContent (request img g ch) = Inr t \<and> JSON_parse (text_or_braces t) = Some v
      \<longrightarrow> outcome = Inr v)
     \<and> (outcome = Inr v \<and> v \<noteq> JNull
      \<longrightarrow> result (app (step (Settled k outcome) s)) = Some v
          \<and> status (app (step (Settled k outcome) s)) = (if live v then SUCCESS else FAILED)
          \<and> error (app (step (Settled k outcome) s)) = error (app s))
     \<and> (outcome = Inr JNull \<or> (\<exists>e. outcome = Inl e)
      \<longrightarrow> status (app (step (Settled k outcome) s)) = IDLE
          \<and> result (app (step (Settled k outcome) s)) = None
          \<and> error (app (step (Settled k outcome) s))
              = Some ''Verification service unavailable. Check your internet connection.'')
     \<and> (generateContent (request img g ch) = Inr t \<and> (t = None \<or> t = Some [])
        \<and> JSON_parse ''{}'' = Some (JObj [])
      \<longrightarrow> outcome = Inr (JObj [])
          \<and> result (app (step (Settled k outcome) s)) = Some (JObj [])
          \<and> status (app (step (Settled k outcome) s)) = FAILED
          \<and> error (app (step (Settled k outcome) s)) = error (app s))
     \<and> ((\<exists>e. outcome = Inl e)
        \<longleftrightarrow> (\<exists>e. generateContent (request img g ch) = Inl e)
            \<or> (\<exists>t. generateContent (request img g ch) = Inr t
                   \<and> JSON_parse (text_or_braces t) = None))"
proof -
  have inv: "attempt_inv s" using assms(1) by (simp add: attempt_inv_reachable)
  have a: "generateContent (request img g ch) = Inr t
      \<and> JSON_parse (text_or_braces t) = Some v \<longrightarrow> outcome = Inr v" for t v
    using verifyLiveness_Inr [of generateContent img g ch t JSON_parse v] assms(3) by simp
  have b: "outcome = Inr v \<and> v \<noteq> JNull
      \<longrightarrow> result (app (step (Settled k outcome) s)) = Some v
          \<and> status (app (step (Settled k outcome) s)) = (if live v then SUCCESS else FAILED)
          \<and> error (app (step (Settled k outcome) s)) = error (app s)" for v
    using settled_value [OF assms(2), of v] by simp
  have c: "outcome = Inr JNull \<or> (\<exists>e. outcome = Inl e)
      \<longrightarrow> status (app (step (Settled k outcome) s)) = IDLE
          \<and> result (app (step (Settled k outcome) s)) = None
          \<and> error (app (step (Settled k outcome) s))
              = Some ''Verification service unavailable. Check your internet connection.''"
  proof
    assume "outcome = Inr JNull \<or> (\<exists>e. outcome = Inl e)"
    from settled_failed [OF inv assms(2) this]
    show "status (app (step (Settled k outcome) s)) = IDLE
          \<and> result (app (step (Settled k outcome) s)) = None
          \<and> error (app (step (Settled k outcome) s))
              = Some ''Verification service unavailable. Check your internet connection.''"
      by simp
  qed
  have braces: "t = None \<or> t = Some [] \<Longrightarrow> text_or_braces t = ''{}''"
    by (auto simp: text_or_braces_def)
  have live_empty: "\<not> live (JObj [])" by (simp add: live_def)
  have d: "generateContent (request img g ch) = Inr t \<and> (t = None \<or> t = Some [])
        \<and> JSON_parse ''{}'' = Some (JObj [])
      \<longrightarrow> outcome = Inr (JObj [])
          \<and> result (app (step (Settled k outcome) s)) = Some (JObj [])
          \<and> status (app (step (Settled k outcome) s)) = FAILED
          \<and> error (app (step (Settled k outcome) s)) = error (app s)"
    using a [of t "JObj []"] b [of "JObj []"] braces live_empty by auto
  have e: "(\<exists>e. outcome = Inl e)
        \<longleftrightarrow> (\<exists>e. generateContent (request img g ch) = Inl e)
            \<or> (\<exists>t. generateContent (request img g ch) = Inr t
                   \<and> JSON_parse (text_or_braces t) = None)"
    unfolding assms(3) by (rule verifyLiveness_Inl_iff)
  from a b c d e show ?thesis by blast
qed

theorem parsed_value_stored_unchecked_witness:
  "verifying = run (prepare @ [RunLivenessCheck (3/5), Timeout 0 a_frame]) initial
   \<and> 0 < length (inflight verifying)
   \<and> no_body (request ''AAAA'' sample_gyro (CHALLENGES ! 2)) = Inr None
   \<and> JSON_parse_braces ''{}'' = Some (JObj [])
   \<and> result (app (step (Settled 0 (verifyLiveness JSON_parse_braces no_body ''AAAA''
         sample_gyro (Some (CHALLENGES ! 2)))) verifying)) = Some (JObj [])
   \<and> status (app (step (Settled 0 (verifyLiveness JSON_parse_braces no_body ''AAAA''
         sample_gyro (Some (CHALLENGES ! 2)))) verifying)) = FAILED
   \<and> (\<exists>e. verifyLiveness JSON_parse_braces (\<lambda>req. Inl (RemoteError ''offline'')) ''AAAA''
         sample_gyro (Some (CHALLENGES ! 2)) = Inl e)
   \<and> status (app (step (Settled 0 (verifyLiveness JSON_parse_braces
         (\<lambda>req. Inl (RemoteError ''offline'')) ''AAAA''
         sample_gyro (Some (CHALLENGES ! 2)))) verifying)) = IDLE
   \<and> verifyLiveness (\<lambda>t. Some JNull) (\<lambda>req. Inr (Some ''null'')) ''AAAA''
         sample_gyro (Some (CHALLENGES ! 2)) = Inr JNull
   \<and> status (app (step (Settled 0 (verifyLiveness (\<lambda>t. Some JNull)
         (\<lambda>req. Inr (Some ''null'')) ''AAAA''
         sample_gyro (Some (CHALLENGES ! 2)))) verifying)) = IDLE
   \<and> result (app (step (Settled 0 (verifyLiveness (\<lambda>t. Some JNull)
         (\<lambda>req. Inr (Some ''null'')) ''AAAA''
         sample_gyro (Some (CHALLENGES ! 2)))) verifying)) = None"
proof -
  have k: "0 < length (inflight verifying)" by (simp add: verifying_eq)
  have n: "no_body (request ''AAAA'' sample_gyro (CHALLENGES ! 2)) = Inr None"
    by (simp add: no_body_def)
  have p: "JSON_parse_braces ''{}'' = Some (JObj [])"
    by (simp add: JSON_parse_braces_def)
  have t: "(\<lambda>req::Request. (Inl (RemoteError ''offline'') :: exn + string option))
      (request ''AAAA'' sample_gyro (CHALLENGES ! 2)) = Inl (RemoteError ''offline'')"
    by simp
  have u: "(\<lambda>req::Request. (Inr (Some ''null'') :: exn + string option))
      (request ''AAAA'' sample_gyro (CHALLENGES ! 2)) = Inr (Some ''null'')
      \<and> (\<lambda>t::string. Some JNull) (text_or_braces (Some ''null'')) = Some JNull"
    by simp
  note A = parsed_value_stored_unchecked [where JSON_parse = JSON_parse_braces
      and generateContent = no_body and img = "''AAAA''" and g = sample_gyro
      and ch = "CHALLENGES ! 2" and t = None and v = "JObj []",
      OF verifying_reachable k refl]
  note B = parsed_value_stored_unchecked [where JSON_parse = JSON_parse_braces
      and generateContent = "\<lambda>req. Inl (RemoteError ''offline'')" and img = "''AAAA''"
      and g = sample_gyro and ch = "CHALLENGES ! 2" and t = None and v = "JObj []",
      OF verifying_reachable k refl]
  note C = parsed_value_stored_unchecked [where JSON_parse = "\<lambda>t. Some JNull"
      and generateContent = "\<lambda>req. Inr (Some ''null'')" and img = "''AAAA''"
      and g = sample_gyro and ch = "CHALLENGES ! 2" and t = "Some ''null''" and v = JNull,
      OF verifying_reachable k refl]
  have a: "result (app (step (Settled 0 (verifyLiveness JSON_parse_braces no_body ''AAAA''
         sample_gyro (Some (CHALLENGES ! 2)))) verifying)) = Some (JObj [])
      \<and> status (app (step (Settled 0 (verifyLiveness JSON_parse_braces no_body ''AAAA''
         sample_gyro (Some (CHALLENGES ! 2)))) verifying)) = FAILED"
    using A n p by blast
  have b: "(\<exists>e. verifyLiveness JSON_parse_braces (\<lambda>req. Inl (RemoteError ''offline'')) ''AAAA''
         sample_gyro (Some (CHALLENGES ! 2)) = Inl e)
      \<and> status (app (step (Settled 0 (verifyLiveness JSON_parse_braces
         (\<lambda>req. Inl (RemoteError ''offline'')) ''AAAA''
         sample_gyro (Some (CHALLENGES ! 2)))) verifying)) = IDLE"
    using B t by blast
  have c: "verifyLiveness (\<lambda>t. Some JNull) (\<lambda>req. Inr (Some ''null'')) ''AAAA''
         sample_gyro (Some (CHALLENGES ! 2)) = Inr JNull
      \<and> status (app (step (Settled 0 (verifyLiveness (\<lambda>t. Some JNull)
         (\<lambda>req. Inr (Some ''null'')) ''AAAA''
         sample_gyro (Some (CHALLENGES ! 2)))) verifying)) = IDLE
      \<and> result (app (step (Settled 0 (verifyLiveness (\<lambda>t. Some JNull)
         (\<lambda>req. Inr (Some ''null'')) ''AAAA''
         sample_gyro (Some (CHALLENGES ! 2)))) verifying)) = None"
    using C u by blast
  from verifying_reachable k n p a b c show ?thesis by blast
qed

text \<open>
  C4. When a pending callback runs and \<open>captureFrame\<close> gives no frame, the session
  goes to \<open>IDLE\<close> with the error of the capture set and no result stored; no call of
  \<open>verifyLiveness\<close> is made (none was in flight and none is afterwards), and no
  callback is left.
\<close>

theorem capture_failure_short_circuit:
  assumes "s = run es initial" and "k < length (timers s)" and "no_frame (captureFrame env)"
  shows "status (app (step (Timeout k env) s)) = IDLE
    \<and> error (app (step (Timeout k env) s)) = Some ''Failed to capture camera frame.''
    \<and> result (app (step (Timeout k env) s)) = None
    \<and> inflight (step (Timeout k env) s) = inflight s
    \<and> inflight s = []
    \<and> timers (step (Timeout k env) s) = []"
proof -
  have inv: "attempt_inv s" using assms(1) by (simp add: attempt_inv_reachable)
  from inv assms(2) have "result (app s) = None \<and> inflight s = [] \<and> length (timers s) = 1"
    by (cases "status (app s)") (simp_all add: attempt_inv_def)
  with assms(2,3) show ?thesis
    by (auto simp: step_def timeout_def timeout_updates_def no_frame_def Let_def
        split: prod.splits option.splits)
qed

theorem capture_failure_short_circuit_witness:
  "requested = run (prepare @ [RunLivenessCheck (3/5)]) initial
   \<and> 0 < length (timers requested)
   \<and> no_frame (captureFrame no_video)
   \<and> status (app (step (Timeout 0 no_video) requested)) = IDLE
   \<and> error (app (step (Timeout 0 no_video) requested))
       = Some ''Failed to capture camera frame.''
   \<and> result (app (step (Timeout 0 no_video) requested)) = None
   \<and> inflight (step (Timeout 0 no_video) requested) = []"
proof -
  have k: "0 < length (timers requested)" by (simp add: requested_eq)
  have f: "no_frame (captureFrame no_video)"
    by (simp add: captureFrame_no_video no_frame_def)
  show ?thesis
    using capture_failure_short_circuit [OF requested_reachable k f] k f requested_reachable
    by metis
qed

text \<open>
  C5. When the call in flight is rejected, the session goes to \<open>IDLE\<close>, not to
  \<open>FAILED\<close>, with the connectivity error set and no result stored.
\<close>

theorem remote_failure_to_idle:
  assumes "s = run es initial" and "k < length (inflight s)"
  shows "status (app (step (Settled k (Inl e)) s)) = IDLE
    \<and> error (app (step (Settled k (Inl e)) s))
        = Some ''Verification service unavailable. Check your internet connection.''
    \<and> result (app (step (Settled k (Inl e)) s)) = None"
proof -
  have inv: "attempt_inv s" using assms(1) by (simp add: attempt_inv_reachable)
  from inv assms(2) have "result (app s) = None"
    by (cases "status (app s)") (simp_all add: attempt_inv_def)
  with assms(2) show ?thesis
    by (simp add: step_def settled_def settled_updates_def catch_updates_def)
qed

theorem remote_failure_to_idle_witness:
  "verifying = run (prepare @ [RunLivenessCheck (3/5), Timeout 0 a_frame]) initial
   \<and> 0 < length (inflight verifying)
   \<and> status (app (step (Settled 0 (Inl (RemoteError ''offline''))) verifying)) = IDLE
   \<and> error (app (step (Settled 0 (Inl (RemoteError ''offline''))) verifying))
        = Some ''Verification service unavailable. Check your internet connection.''
   \<and> result (app (step (Settled 0 (Inl (RemoteError ''offline''))) verifying)) = None"
proof -
  have k: "0 < length (inflight verifying)" by (simp add: verifying_eq)
  show ?thesis
    using remote_failure_to_idle [OF verifying_reachable k, of "RemoteError ''offline''"] k
      verifying_reachable
    by blast
qed

text \<open>
  C6 as stated fails. After a second click on "Start Liveness Test" a handler is still
  pending when the session runs, and its \<open>getUserMedia\<close> throws while the call of the
  session is in flight; when the call is fulfilled, the session is in \<open>SUCCESS\<close> with
  a result stored and an error set. Every event of this execution can happen in its turn.
\<close>

theorem verdict_and_error_counterexample:
  "all_enabled (double_click @ [Settled 0 (Inr (verdict_value live_verdict))]) initial
   \<and> late_success = run (double_click @ [Settled 0 (Inr (verdict_value live_verdict))]) initial
   \<and> status (app late_success) = SUCCESS
   \<and> result (app late_success) = Some (verdict_value live_verdict)
   \<and> error (app late_success) = Some ''Camera error: busy''"
proof -
  have "all_enabled (double_click @ [Settled 0 (Inr (verdict_value live_verdict))]) initial"
    by (simp add: double_click_def initial_def step_def
        startLivenessTest_click_def initializeGyro_answered_def startCamera_answered_def
        initializeGyro_updates_def startCamera_updates_def handleOrientation_def
        handleOrientation_updates_def orZero_def startVerification_def
        startVerification_updates_def pick_three_fifths Let_def timeout_def timeout_updates_def
        captureFrame_a_frame no_frame_def)
  moreover have "late_success
      = run (double_click @ [Settled 0 (Inr (verdict_value live_verdict))]) initial"
    by (simp add: late_success_def late_error_def run_append)
  moreover have "status (app late_success) = SUCCESS
      \<and> result (app late_success) = Some (verdict_value live_verdict)
      \<and> error (app late_success) = Some ''Camera error: busy''"
    by (simp add: late_success_eq)
  ultimately show ?thesis by blast
qed

text \<open>
  C6, amended. In every state the events of the page lead to, \<open>IDLE\<close> (where both error
  paths of the session end) holds no result, and \<open>SUCCESS\<close> and \<open>FAILED\<close> hold one.
  Once the set-up is over (the camera ready, no handler of "Start Liveness Test" pending,
  the session idle or without error), in every later state \<open>SUCCESS\<close> and \<open>FAILED\<close>
  have no error, a state with an error has no result, and result and error are never
  both present.
\<close>

theorem verdict_error_exclusive:
  assumes "s = run es' (run es initial)"
  shows "(status (app s) = IDLE \<longrightarrow> result (app s) = None)
    \<and> (status (app s) = SUCCESS \<or> status (app s) = FAILED \<longrightarrow> result (app s) \<noteq> None)
    \<and> (calm (run es initial)
        \<longrightarrow> (status (app s) = SUCCESS \<or> status (app s) = FAILED \<longrightarrow> error (app s) = None)
            \<and> (error (app s) \<noteq> None \<longrightarrow> result (app s) = None)
            \<and> \<not> (result (app s) \<noteq> None \<and> error (app s) \<noteq> None))"
proof -
  have inv: "attempt_inv s" unfolding assms by (rule attempt_inv_later)
  then have a: "(status (app s) = IDLE \<longrightarrow> result (app s) = None)
      \<and> (status (app s) = SUCCESS \<or> status (app s) = FAILED \<longrightarrow> result (app s) \<noteq> None)"
    by (cases "status (app s)") (auto simp: attempt_inv_def split: option.splits)
  have b: "(status (app s) = SUCCESS \<or> status (app s) = FAILED \<longrightarrow> error (app s) = None)
      \<and> (error (app s) \<noteq> None \<longrightarrow> result (app s) = None)
      \<and> \<not> (result (app s) \<noteq> None \<and> error (app s) \<noteq> None)"
    if "calm (run es initial)"
  proof -
    have "calm s" unfolding assms using that by (rule calm_later)
    with a show ?thesis by (auto simp: calm_def)
  qed
  from a b show ?thesis by blast
qed

theorem verdict_error_exclusive_witness:
  "calm (run prepare initial)
   \<and> succeeded = run [RunLivenessCheck (3/5), Timeout 0 a_frame,
                      Settled 0 (Inr (verdict_value live_verdict))] (run prepare initial)
   \<and> status (app succeeded) = SUCCESS
   \<and> error (app succeeded) = None
   \<and> result (app succeeded) \<noteq> None
   \<and> capture_failed = run [RunLivenessCheck (3/5), Timeout 0 no_video] (run prepare initial)
   \<and> status (app capture_failed) = IDLE
   \<and> error (app capture_failed) \<noteq> None
   \<and> result (app capture_failed) = None"
proof -
  have a: "status (app succeeded) = SUCCESS" by (simp add: succeeded_eq)
  have b: "error (app capture_failed) \<noteq> None" "status (app capture_failed) = IDLE"
    by (simp_all add: capture_failed_eq)
  have c: "capture_failed
      = run [RunLivenessCheck (3/5), Timeout 0 no_video] (run prepare initial)"
    by (simp add: capture_failed_def requested_def ready_def)
  show ?thesis
    using verdict_error_exclusive [OF succeeded_later] verdict_error_exclusive [OF c]
      succeeded_later c calm_ready a b
    by blast
qed

text \<open>
  C7. Whatever the state before, after \<open>reset\<close> the status is \<open>IDLE\<close> and the active
  challenge, the result and the error are all \<open>null\<close>.
\<close>

theorem reset_clears_attempt:
  "status (app (reset s)) = IDLE \<and> currentChallenge (app (reset s)) = None
   \<and> result (app (reset s)) = None \<and> error (app (reset s)) = None"
  by (simp add: reset_def reset_updates_def)

text \<open>
  C8. For every value of \<open>Math.random()\<close> and from every state, \<open>startVerification\<close>
  clears result and error, writes the status \<open>INITIALIZING\<close> and then, after the one
  selection, \<open>CHALLENGE_REQUESTED\<close>, where it leaves the session; it sets the active
  challenge once, to a member of \<open>CHALLENGES\<close> (whose id is one of 1 to 4), and leaves
  one callback pending, with that same challenge.
\<close>

theorem start_issues_one_challenge:
  assumes "0 \<le> r" and "r < 1"
  shows "\<exists>c \<in> set CHALLENGES.
      id' c \<in> {''1'', ''2'', ''3'', ''4''}
      \<and> currentChallenge (app (startVerification r s)) = Some c
      \<and> timers (startVerification r s) = timers s @ [(gyro (app s), Some c)]
      \<and> inflight (startVerification r s) = inflight s
      \<and> writes (RunLivenessCheck r) s
          = [SetResult None, SetError None, SetStatus INITIALIZING,
             SetCurrentChallenge (Some c), SetStatus CHALLENGE_REQUESTED]
      \<and> status (app (startVerification r s)) = CHALLENGE_REQUESTED
      \<and> result (app (startVerification r s)) = None
      \<and> error (app (startVerification r s)) = None"
proof -
  from pick_challenge_in_catalog [OF assms] obtain c
    where c: "c \<in> set CHALLENGES" "pick_challenge r = Some c" by blast
  have "id' c \<in> {''1'', ''2'', ''3'', ''4''}" using c(1) by (rule catalog_ids)
  with c show ?thesis
    by (intro bexI [of _ c])
       (simp_all add: startVerification_def startVerification_updates_def Let_def)
qed

theorem start_issues_one_challenge_witness:
  "(0::real) \<le> 3/5 \<and> (3/5::real) < 1
   \<and> currentChallenge (app (startVerification (3/5) capture_failed)) = Some (CHALLENGES ! 2)
   \<and> id' (CHALLENGES ! 2) = ''3''
   \<and> status (app (startVerification (3/5) capture_failed)) = CHALLENGE_REQUESTED
   \<and> error (app capture_failed) = Some ''Failed to capture camera frame.''
   \<and> error (app (startVerification (3/5) capture_failed)) = None
   \<and> timers (startVerification (3/5) capture_failed)
       = [(gyro (app capture_failed), Some (CHALLENGES ! 2))]"
proof -
  have h: "(0::real) \<le> 3/5" "(3/5::real) < 1" by simp_all
  from start_issues_one_challenge [OF h, of capture_failed] obtain c where
    c: "currentChallenge (app (startVerification (3/5) capture_failed)) = Some c"
       "timers (startVerification (3/5) capture_failed)
          = timers capture_failed @ [(gyro (app capture_failed), Some c)]"
       "status (app (startVerification (3/5) capture_failed)) = CHALLENGE_REQUESTED"
       "error (app (startVerification (3/5) capture_failed)) = None"
    by blast
  have "currentChallenge (app (startVerification (3/5) capture_failed))
      = Some (CHALLENGES ! 2)"
    by (simp add: startVerification_def startVerification_updates_def pick_three_fifths
        Let_def)
  with c(1) have "c = CHALLENGES ! 2" by simp
  moreover have "id' (CHALLENGES ! 2) = ''3''" by (simp add: CHALLENGES_def)
  moreover have "timers capture_failed = []" by (simp add: capture_failed_eq)
  moreover have "error (app capture_failed) = Some ''Failed to capture camera frame.''"
    by (simp add: capture_failed_eq)
  ultimately show ?thesis using c h by simp
qed

text \<open>
  C9 as stated fails: before any orientation event the three fields of \<open>gyro\<close> are the
  number 0, not \<open>null\<close>.
\<close>

theorem gyro_initially_absent_counterexample:
  "alpha (gyro (app initial)) = Some 0 \<and> beta (gyro (app initial)) = Some 0
   \<and> gamma (gyro (app initial)) = Some 0"
  by (simp add: initial_def)

text \<open>
  C9, amended. Before the first orientation event every field of \<open>gyro\<close> is 0. A reading
  of an orientation event may be absent, each on its own, and so may a field of the type
  \<open>GyroData\<close>; but \<open>handleOrientation\<close> stores 0 for an absent reading. So in every
  state the events of the page lead to, all three fields of \<open>gyro\<close> are present.
\<close>

theorem gyro_never_absent:
  "gyro (app initial) = \<lparr>alpha = Some 0, beta = Some 0, gamma = Some 0\<rparr>
   \<and> gyro (app (handleOrientation a b g s))
       = \<lparr>alpha = Some (orZero a), beta = Some (orZero b), gamma = Some (orZero g)\<rparr>
   \<and> orZero None = 0
   \<and> all_present (gyro (app (run es initial)))"
proof -
  have "all_present (gyro (app initial))" by (simp add: all_present_def initial_def)
  then have "all_present (gyro (app (run es initial)))" by (rule all_present_run)
  then show ?thesis
    by (simp add: initial_def handleOrientation_def handleOrientation_updates_def orZero_def)
qed

text \<open>
  C10. No event writes the status \<open>RECORDING\<close>. In every state the events of the page
  lead to, and in every state passed through while the setter calls of a next event are
  applied, the status is one of \<open>IDLE\<close>, \<open>INITIALIZING\<close>, \<open>CHALLENGE_REQUESTED\<close>,
  \<open>VERIFYING\<close>, \<open>SUCCESS\<close>, \<open>FAILED\<close>, never \<open>RECORDING\<close>.
\<close>

theorem recording_never_set:
  assumes "s = run es initial"
  shows "status (app s) \<noteq> RECORDING
    \<and> session_status (status (app s))
    \<and> SetStatus RECORDING \<notin> set (writes e s)
    \<and> (\<forall>a \<in> set (states_during (writes e s) (app s)).
          session_status (status a) \<and> status a \<noteq> RECORDING)"
proof -
  have st: "session_status (status (app s))"
    using assms by (simp add: session_status_reachable)
  have w: "SetStatus RECORDING \<notin> set (writes e s)" by (rule writes_no_recording)
  have "\<forall>a \<in> set (states_during (writes e s) (app s)). session_status (status a)"
    using states_during_status [OF st w] by blast
  with st w show ?thesis by (auto simp: session_status_def)
qed

theorem recording_never_set_witness:
  "ready = run prepare initial
   \<and> map status (states_during (writes (RunLivenessCheck (3/5)) ready) (app ready))
       = [IDLE, IDLE, IDLE, INITIALIZING, INITIALIZING, CHALLENGE_REQUESTED]
   \<and> session_status INITIALIZING \<and> INITIALIZING \<noteq> RECORDING
   \<and> status (app ready) \<noteq> RECORDING"
proof -
  have m: "map status (states_during (writes (RunLivenessCheck (3/5)) ready) (app ready))
       = [IDLE, IDLE, IDLE, INITIALIZING, INITIALIZING, CHALLENGE_REQUESTED]"
    by (simp add: ready_eq startVerification_updates_def)
  then have "INITIALIZING
      \<in> status ` set (states_during (writes (RunLivenessCheck (3/5)) ready) (app ready))"
    by (metis list.set_intros(1,2) list.set_map)
  then obtain a
    where a: "a \<in> set (states_during (writes (RunLivenessCheck (3/5)) ready) (app ready))"
      "status a = INITIALIZING" by auto
  from recording_never_set [OF ready_reachable, of "RunLivenessCheck (3/5)"] a
  have "session_status INITIALIZING \<and> INITIALIZING \<noteq> RECORDING
      \<and> status (app ready) \<noteq> RECORDING"
    by metis
  with m ready_reachable show ?thesis by blast
qed

end
